theory Spec2Isabelle
  imports Complex_Main "HOL-Library.Multiset"
begin

section \<open>Retrieval engine of Cancer\_AI: embedding, index search, encyclopedia lookup, reranking\<close>

text \<open>
  The development embeds \<^verbatim>\<open>src/retrieval/embeddings.py\<close>, \<^verbatim>\<open>src/retrieval/vector_store.py\<close>
  and \<^verbatim>\<open>src/retrieval/retriever.py\<close>.

  Conventions of the embedding:
  \<^item> Python \<open>str\<close> is \<open>string\<close>, the list of the UTF-8 bytes of the text. A character of
    the text is a lead byte with its continuation bytes (\<open>utf8_chars\<close>): \<open>len\<close> counts
    characters (\<open>py_len\<close>) and \<open>strip\<close> removes every character that Python takes for
    white space, also beyond ASCII. The tokenizer's pattern matches ASCII letters, digits,
    hyphen and apostrophe only, and every byte of a non-ASCII character is at least 128, so
    tokens are ASCII strings and are the same over bytes and over characters.
  \<^item> The value of a float is a \<open>real\<close>; infinities and NaN are not modelled. The arithmetic
    of numpy on \<open>float32\<close> arrays (conversion, norm, division, product, sum) is a parameter,
    the record \<open>numpy\<close>, so that nothing is assumed about its rounding; \<open>exact_numpy\<close> is
    the arithmetic without rounding.
  \<^item> An exception is a value \<open>Inl e\<close> of a sum type; a normal return is \<open>Inr v\<close>.
  \<^item> The remote services (embedding model, nearest-neighbour index, encyclopedia) are
    parameters: functions of their argument. Every call to one of them is appended to a
    trace, which all operations take and return.
  \<^item> The passages that the reranker updates in place live in a store, a function from
    references to dictionaries; lists of passages are then lists of references.
\<close>

subsection \<open>Python strings\<close>

definition is_upper_c :: "char \<Rightarrow> bool" where
  "is_upper_c c = (65 \<le> (of_char c :: nat) \<and> (of_char c :: nat) \<le> 90)"

definition is_lower_c :: "char \<Rightarrow> bool" where
  "is_lower_c c = (97 \<le> (of_char c :: nat) \<and> (of_char c :: nat) \<le> 122)"

definition is_digit_c :: "char \<Rightarrow> bool" where
  "is_digit_c c = (48 \<le> (of_char c :: nat) \<and> (of_char c :: nat) \<le> 57)"

definition is_cased_c :: "char \<Rightarrow> bool" where
  "is_cased_c c = (is_upper_c c \<or> is_lower_c c)"

text \<open>\<open>str.isspace\<close> on ASCII: tab, line feed, vertical tab, form feed, carriage return,
  the four separators 28 to 31, and space.\<close>

definition is_space_c :: "char \<Rightarrow> bool" where
  "is_space_c c = ((9 \<le> (of_char c :: nat) \<and> (of_char c :: nat) \<le> 13)
                   \<or> (28 \<le> (of_char c :: nat) \<and> (of_char c :: nat) \<le> 32))"

definition lower_c :: "char \<Rightarrow> char" where
  "lower_c c = (if is_upper_c c then char_of ((of_char c :: nat) + 32) else c)"

definition upper_c :: "char \<Rightarrow> char" where
  "upper_c c = (if is_lower_c c then char_of ((of_char c :: nat) - 32) else c)"

text \<open>\<open>s.lower()\<close>\<close>

definition lower_str :: "string \<Rightarrow> string" where
  "lower_str s = map lower_c s"

text \<open>\<open>s.isupper()\<close>: at least one cased character, and no lower-case one.\<close>

definition isupper_str :: "string \<Rightarrow> bool" where
  "isupper_str s = (list_ex is_cased_c s \<and> \<not> list_ex is_lower_c s)"

text \<open>\<open>s.title()\<close>: a cased character is upper-cased when the character before it is not
  cased, and lower-cased otherwise.\<close>

fun title_from :: "bool \<Rightarrow> string \<Rightarrow> string" where
  "title_from prev [] = []"
| "title_from prev (c # cs) =
     (if prev then lower_c c else upper_c c) # title_from (is_cased_c c) cs"

definition title_str :: "string \<Rightarrow> string" where
  "title_str s = title_from False s"

text \<open>The characters of a text: each lead byte with the continuation bytes (\<open>0x80\<close> to
  \<open>0xBF\<close>) that follow it.\<close>

definition is_cont_byte :: "char \<Rightarrow> bool" where
  "is_cont_byte c = (128 \<le> (of_char c :: nat) \<and> (of_char c :: nat) \<le> 191)"

fun utf8_chars :: "string \<Rightarrow> string list" where
  "utf8_chars [] = []"
| "utf8_chars (c # cs) =
     (case utf8_chars cs of
        (b # u) # us \<Rightarrow> (if is_cont_byte b then (c # b # u) # us else [c] # (b # u) # us)
      | us \<Rightarrow> [c] # us)"

text \<open>\<open>len(s)\<close>\<close>

definition py_len :: "string \<Rightarrow> nat" where
  "py_len s = length (utf8_chars s)"

text \<open>The characters beyond ASCII for which \<open>str.isspace\<close> holds, as UTF-8 byte values:
  U+0085, U+00A0, U+1680, U+2000 to U+200A, U+2028, U+2029, U+202F, U+205F, U+3000.\<close>

definition UNICODE_SPACES :: "nat list list" where
  "UNICODE_SPACES =
     [[194, 133], [194, 160], [225, 154, 128],
      [226, 128, 128], [226, 128, 129], [226, 128, 130], [226, 128, 131], [226, 128, 132],
      [226, 128, 133], [226, 128, 134], [226, 128, 135], [226, 128, 136], [226, 128, 137],
      [226, 128, 138], [226, 128, 168], [226, 128, 169], [226, 128, 175], [226, 129, 159],
      [227, 128, 128]]"

definition is_space_u :: "string \<Rightarrow> bool" where
  "is_space_u u =
     (case u of
        [c] \<Rightarrow> is_space_c c
      | _ \<Rightarrow> List.member UNICODE_SPACES (map of_char u))"

text \<open>\<open>s.strip()\<close>: the white space characters at both ends are removed.\<close>

definition strip :: "string \<Rightarrow> string" where
  "strip s = concat (rev (dropWhile is_space_u (rev (dropWhile is_space_u (utf8_chars s)))))"

text \<open>\<open>xs[:n]\<close> for a Python \<open>int\<close> \<open>n\<close>: a negative \<open>n\<close> counts from the end.\<close>

definition py_take :: "int \<Rightarrow> 'a list \<Rightarrow> 'a list" where
  "py_take n xs = (if 0 \<le> n then take (nat n) xs else take (length xs - nat (- n)) xs)"

subsection \<open>Candidate titles (\<^verbatim>\<open>retriever.py\<close>, lines 54 to 102)\<close>

definition STOPWORDS :: "string list" where
  "STOPWORDS =
    [''what'', ''which'', ''that'', ''this'', ''these'', ''those'',
     ''who'', ''whom'', ''whose'', ''where'', ''when'', ''why'', ''how'',
     ''does'', ''do'', ''did'', ''is'', ''are'', ''was'', ''were'', ''be'',
     ''an'', ''a'', ''the'', ''of'', ''and'', ''or'', ''in'', ''on'', ''for'',
     ''to'', ''from'', ''with'', ''as'', ''by'', ''about'', ''describe'', ''explain'']"

text \<open>The pattern \<^verbatim>\<open>[A-Za-z0-9][A-Za-z0-9\-']*\<close>: a token starts at a letter or digit and
  runs over letters, digits, hyphens and apostrophes.\<close>

definition tok_start :: "char \<Rightarrow> bool" where
  "tok_start c = (is_upper_c c \<or> is_lower_c c \<or> is_digit_c c)"

definition tok_cont :: "char \<Rightarrow> bool" where
  "tok_cont c = (tok_start c \<or> c = CHR ''-'' \<or> c = CHR 0x27)"

text \<open>\<open>re.findall\<close>: leftmost, longest, non-overlapping matches. The first argument is the
  token being read, if any.\<close>

fun findall_tok :: "string option \<Rightarrow> string \<Rightarrow> string list" where
  "findall_tok None [] = []"
| "findall_tok (Some t) [] = [t]"
| "findall_tok None (c # cs) =
     (if tok_start c then findall_tok (Some [c]) cs else findall_tok None cs)"
| "findall_tok (Some t) (c # cs) =
     (if tok_cont c then findall_tok (Some (t @ [c])) cs else t # findall_tok None cs)"

definition tokenize_bio :: "string \<Rightarrow> string list" where
  "tokenize_bio text = filter (\<lambda>t. strip t \<noteq> []) (findall_tok None text)"

text \<open>The loop over \<open>range(len(tokens) - 1)\<close>: adjacent pairs joined by a space, kept when
  longer than 4. Tokens are ASCII, one byte for each character, so \<open>len\<close> is \<open>length\<close> here
  and in the test of the unigrams.\<close>

fun bigrams :: "string list \<Rightarrow> string list" where
  "bigrams (a # b # ts) =
     (let bigram = a @ '' '' @ b
      in if length bigram > 4 then bigram # bigrams (b # ts) else bigrams (b # ts))"
| "bigrams ts = []"

fun unigrams :: "string list \<Rightarrow> string list" where
  "unigrams [] = []"
| "unigrams (t # ts) =
     (if List.member STOPWORDS (lower_str t) then unigrams ts
      else if length t \<ge> 4 \<or> list_ex is_digit_c t \<or> isupper_str t
           then t # unigrams ts
           else unigrams ts)"

text \<open>The deduplication loop; \<open>seen\<close> is the set of formatted candidates met so far.\<close>

fun dedup_titles :: "string set \<Rightarrow> string list \<Rightarrow> string list" where
  "dedup_titles seen [] = []"
| "dedup_titles seen (c # cs) =
     (let c_fmt = (if \<not> isupper_str c then title_str c else c)
      in if c_fmt \<notin> seen then c_fmt # dedup_titles (insert c_fmt seen) cs
         else dedup_titles seen cs)"

definition extract_candidate_titles :: "string \<Rightarrow> int \<Rightarrow> string list" where
  "extract_candidate_titles query max_candidates =
     (let tokens = tokenize_bio query
      in if tokens = [] then []
         else let candidates = bigrams tokens @ unigrams tokens
              in py_take max_candidates (dedup_titles {} candidates))"

subsection \<open>Values, errors and the trace of external calls\<close>

text \<open>The exceptions that the engine can raise. \<open>ValueError_dimension\<close> is the \<open>ValueError\<close>
  of \<^verbatim>\<open>FaissIndex.search\<close> (its message carries the index dimension and the query dimension),
  \<open>ValueError_shape\<close> the one numpy raises for rows of different lengths or for operands that
  cannot be broadcast, \<open>RemoteError\<close> any exception of an external service.\<close>

datatype py_error =
    IndexError
  | KeyError
  | TypeError
  | AttributeError
  | ValueError_dimension nat nat
  | ValueError_shape
  | RemoteError string

text \<open>The values stored in passages and metadata rows: strings, floats, lists of strings.\<close>

datatype pyval = Str string | Float real | StrList "string list"

type_synonym pydict = "string \<Rightarrow> pyval option"

text \<open>\<open>d.get(k, default)\<close>\<close>

definition dict_get :: "pydict \<Rightarrow> string \<Rightarrow> pyval \<Rightarrow> pyval" where
  "dict_get d k dflt = (case d k of None \<Rightarrow> dflt | Some v \<Rightarrow> v)"

text \<open>One entry per call that leaves the engine, in the order of the calls; \<open>MetaRead i\<close>
  records the evaluation of \<^verbatim>\<open>self.metadata[i]\<close>.\<close>

datatype event =
    EmbedCall string
  | IndexCall "real list list" int
  | MetaRead int
  | WikiExists string
  | WikiText string

type_synonym trace = "event list"

text \<open>\<open>xs[0]\<close>\<close>

definition index0 :: "'a list \<Rightarrow> py_error + 'a" where
  "index0 xs = (case xs of [] \<Rightarrow> Inl IndexError | x # _ \<Rightarrow> Inr x)"

text \<open>\<open>xs[i]\<close> on a Python list of length \<open>n\<close>: the positions are \<open>0\<close> to \<open>n - 1\<close>, the
  indices \<open>- n\<close> to \<open>- 1\<close> name the same positions from the end, any other index raises.\<close>

definition py_index :: "'a list \<Rightarrow> int \<Rightarrow> py_error + 'a" where
  "py_index xs i =
     (if 0 \<le> i \<and> i < int (length xs) then Inr (xs ! nat i)
      else if i < 0 \<and> - int (length xs) \<le> i then Inr (xs ! nat (int (length xs) + i))
      else Inl IndexError)"

subsection \<open>Embedding provider (\<^verbatim>\<open>embeddings.py\<close>)\<close>

text \<open>The arithmetic of numpy on \<open>float32\<close> arrays, which the engine uses and does not define:
  the conversion of a value to \<open>float32\<close>, \<^verbatim>\<open>np.linalg.norm\<close> of one row, the division and the
  product of two entries, and the sum of the entries of an array.\<close>

record numpy =
  np_float32 :: "real \<Rightarrow> real"
  np_norm :: "real list \<Rightarrow> real"
  np_divide :: "real \<Rightarrow> real \<Rightarrow> real"
  np_multiply :: "real \<Rightarrow> real \<Rightarrow> real"
  np_sum :: "real list \<Rightarrow> real"

text \<open>The Euclidean norm, and the arithmetic without rounding.\<close>

definition l2_norm :: "real list \<Rightarrow> real" where
  "l2_norm v = sqrt (sum_list (map (\<lambda>x. x * x) v))"

definition exact_numpy :: numpy where
  "exact_numpy = \<lparr>np_float32 = (\<lambda>x. x), np_norm = l2_norm, np_divide = (\<lambda>x y. x / y),
                   np_multiply = (\<lambda>x y. x * y), np_sum = sum_list\<rparr>"

text \<open>A \<^verbatim>\<open>SolarEmbedder\<close>: \<^verbatim>\<open>self.model\<close>, the remote embedding model (\<open>Inl\<close> is an exception
  of the call), and the arithmetic of the arrays that it builds.\<close>

record embedder =
  embed_query :: "string \<Rightarrow> py_error + real list"
  arith :: numpy

text \<open>The comprehension \<^verbatim>\<open>[self.model.embed_query(t) for t in valid_texts]\<close>: it stops at the
  first call that raises.\<close>

fun embed_all :: "embedder \<Rightarrow> trace \<Rightarrow> string list \<Rightarrow> (py_error + real list list) \<times> trace" where
  "embed_all e tr [] = (Inr [], tr)"
| "embed_all e tr (t # ts) =
     (case embed_query e t of
        Inl err \<Rightarrow> (Inl err, tr @ [EmbedCall t])
      | Inr v \<Rightarrow>
          (case embed_all e (tr @ [EmbedCall t]) ts of
             (Inl err, tr') \<Rightarrow> (Inl err, tr')
           | (Inr vs, tr') \<Rightarrow> (Inr (v # vs), tr')))"

text \<open>\<^verbatim>\<open>np.array(vectors, dtype="float32")\<close> for a non-empty list of rows: a two-dimensional
  array of the converted entries when all rows have one length, a \<open>ValueError\<close> otherwise.\<close>

definition np_array :: "numpy \<Rightarrow> real list list \<Rightarrow> py_error + real list list" where
  "np_array np vectors =
     (if list_all (\<lambda>v. length v = length (hd vectors)) vectors
      then Inr (map (map (np_float32 np)) vectors)
      else Inl ValueError_shape)"

text \<open>One row of \<^verbatim>\<open>arr / np.clip(np.linalg.norm(arr, axis=1, keepdims=True), 1e-12, None)\<close>:
  the norm of the row, clipped from below at the \<open>float32\<close> value of \<open>1e-12\<close>, divides
  every entry.\<close>

definition l2_normalize :: "numpy \<Rightarrow> real list \<Rightarrow> real list" where
  "l2_normalize np v =
     (let norm = np_norm np v;
          divisor = max norm (np_float32 np (1 / 10 ^ 12))
      in map (\<lambda>x. np_divide np x divisor) v)"

text \<open>The texts that \<^verbatim>\<open>encode\<close> iterates over: a single string becomes a list of one;
  iterating a float raises.\<close>

definition text_list :: "pyval \<Rightarrow> py_error + string list" where
  "text_list texts =
     (case texts of Str s \<Rightarrow> Inr [s] | StrList ts \<Rightarrow> Inr ts | Float x \<Rightarrow> Inl TypeError)"

text \<open>\<^verbatim>\<open>SolarEmbedder.encode\<close>. The result \<open>[]\<close> is \<^verbatim>\<open>np.array([])\<close>; a non-empty result is
  the list of rows of the \<open>(N, D)\<close> array. The filter of blank texts is outside the \<open>try\<close>
  block; the calls of the model, the conversion and the normalization are inside, and any
  exception there gives the empty array.\<close>

definition encode :: "embedder \<Rightarrow> trace \<Rightarrow> pyval \<Rightarrow> (py_error + real list list) \<times> trace" where
  "encode e tr texts =
     (case text_list texts of
        Inl err \<Rightarrow> (Inl err, tr)
      | Inr ts \<Rightarrow>
        (let valid_texts = filter (\<lambda>t. strip t \<noteq> []) ts
         in if valid_texts = [] then (Inr [], tr)
            else (case embed_all e tr valid_texts of
                    (Inl err, tr') \<Rightarrow> (Inr [], tr')
                  | (Inr vectors, tr') \<Rightarrow>
                      (case np_array (arith e) vectors of
                         Inl err \<Rightarrow> (Inr [], tr')
                       | Inr arr \<Rightarrow> (Inr (map (l2_normalize (arith e)) arr), tr')))))"

subsection \<open>Vector index reader (\<^verbatim>\<open>vector_store.py\<close>)\<close>

text \<open>A loaded \<^verbatim>\<open>FaissIndex\<close>: \<^verbatim>\<open>self.index.d\<close>, \<^verbatim>\<open>self.index.search\<close> (the library's search,
  which returns the two arrays of scores and of slot ids, one row per query row) and
  \<^verbatim>\<open>self.metadata\<close>, whose rows are JSON objects.\<close>

record faiss_index =
  index_d :: nat
  index_search :: "real list list \<Rightarrow> int \<Rightarrow> py_error + (real list list \<times> int list list)"
  metadata :: "pydict list"

text \<open>The query array, of \<open>float32\<close> values as \<open>encode\<close> returns them: one-dimensional, or
  two-dimensional with its number of columns.\<close>

datatype ndarray = Arr1 "real list" | Arr2 nat "real list list"

text \<open>The rows after \<^verbatim>\<open>reshape(1, -1)\<close> of a one-dimensional array, and \<^verbatim>\<open>shape[1]\<close> then.\<close>

fun rows_2d :: "ndarray \<Rightarrow> real list list" where
  "rows_2d (Arr1 v) = [v]"
| "rows_2d (Arr2 n rows) = rows"

fun shape1 :: "ndarray \<Rightarrow> nat" where
  "shape1 (Arr1 v) = length v"
| "shape1 (Arr2 n rows) = n"

text \<open>\<^verbatim>\<open>{"score": float(score), "text": meta.get("text", ""), **meta}\<close>: the keys of \<open>meta\<close>
  come last and win.\<close>

definition hit_dict :: "real \<Rightarrow> pydict \<Rightarrow> pydict" where
  "hit_dict score meta =
     (Map.empty(''score'' \<mapsto> Float score, ''text'' \<mapsto> dict_get meta ''text'' (Str ''''))) ++ meta"

text \<open>The loop over \<^verbatim>\<open>zip(scores[0], idxs[0])\<close>.\<close>

fun collect_hits :: "pydict list \<Rightarrow> trace \<Rightarrow> (real \<times> int) list \<Rightarrow> pydict list
                     \<Rightarrow> (py_error + pydict list) \<times> trace" where
  "collect_hits meta tr [] results = (Inr results, tr)"
| "collect_hits meta tr ((score, idx) # hits) results =
     (if idx = - 1 \<or> idx \<ge> int (length meta) then collect_hits meta tr hits results
      else (case py_index meta idx of
              Inl err \<Rightarrow> (Inl err, tr @ [MetaRead idx])
            | Inr m \<Rightarrow> collect_hits meta (tr @ [MetaRead idx]) hits (results @ [hit_dict score m])))"

text \<open>The raw hits: the call of the library's search and \<^verbatim>\<open>zip(scores[0], idxs[0])\<close>.\<close>

definition raw_hits :: "faiss_index \<Rightarrow> real list list \<Rightarrow> int \<Rightarrow> py_error + (real \<times> int) list" where
  "raw_hits ix q top_k =
     (case index_search ix q top_k of
        Inl err \<Rightarrow> Inl err
      | Inr (scores, idxs) \<Rightarrow>
          (case index0 scores of
             Inl err \<Rightarrow> Inl err
           | Inr s0 \<Rightarrow> (case index0 idxs of Inl err \<Rightarrow> Inl err | Inr i0 \<Rightarrow> Inr (zip s0 i0))))"

text \<open>\<^verbatim>\<open>FaissIndex.search\<close>. The array holds \<open>float32\<close> values, so the test of the \<open>dtype\<close>
  fails and there is no conversion.\<close>

definition FaissIndex_search :: "faiss_index \<Rightarrow> trace \<Rightarrow> ndarray \<Rightarrow> int
                                 \<Rightarrow> (py_error + pydict list) \<times> trace" where
  "FaissIndex_search ix tr query_emb top_k =
     (if shape1 query_emb \<noteq> index_d ix
      then (Inl (ValueError_dimension (index_d ix) (shape1 query_emb)), tr)
      else (case raw_hits ix (rows_2d query_emb) top_k of
              Inl err \<Rightarrow> (Inl err, tr @ [IndexCall (rows_2d query_emb) top_k])
            | Inr hits \<Rightarrow>
                collect_hits (metadata ix) (tr @ [IndexCall (rows_2d query_emb) top_k]) hits []))"

subsection \<open>Index search driver (\<^verbatim>\<open>retriever.py\<close>, lines 31 to 48)\<close>

definition search_faiss_index :: "embedder \<Rightarrow> faiss_index \<Rightarrow> trace \<Rightarrow> string \<Rightarrow> int \<Rightarrow> string
                                  \<Rightarrow> (py_error + pydict list) \<times> trace" where
  "search_faiss_index e ix tr query top_k source_tag =
     (case encode e tr (Str query) of
        (Inl err, tr1) \<Rightarrow> (Inl err, tr1)
      | (Inr arr, tr1) \<Rightarrow>
          (case index0 arr of
             Inl err \<Rightarrow> (Inl err, tr1)
           | Inr q_emb \<Rightarrow>
               (case FaissIndex_search ix tr1 (Arr1 q_emb) top_k of
                  (Inl err, tr2) \<Rightarrow> (Inl err, tr2)
                | (Inr results, tr2) \<Rightarrow>
                    (Inr (map (\<lambda>r. r(''source'' \<mapsto> Str source_tag)) results), tr2))))"

subsection \<open>Encyclopedia lookup (\<^verbatim>\<open>retriever.py\<close>, lines 108 to 134)\<close>

text \<open>The module-level client \<^verbatim>\<open>wiki\<close>: \<^verbatim>\<open>wiki.page(title)\<close> builds a lazy page object,
  \<^verbatim>\<open>page.exists()\<close> and \<^verbatim>\<open>page.text\<close> query the remote encyclopedia and may raise.\<close>

record wikipedia =
  page_exists :: "string \<Rightarrow> py_error + bool"
  page_text :: "string \<Rightarrow> py_error + string"

text \<open>\<^verbatim>\<open>s.split("\n")\<close>; the first argument is the piece being read.\<close>

fun split_lines :: "string \<Rightarrow> string \<Rightarrow> string list" where
  "split_lines cur [] = [cur]"
| "split_lines cur (c # cs) =
     (if c = CHR 0x0A then cur # split_lines [] cs else split_lines (cur @ [c]) cs)"

definition wiki_chunk :: "string \<Rightarrow> string \<Rightarrow> pydict" where
  "wiki_chunk title p =
     Map.empty(''text'' \<mapsto> Str p,
               ''source'' \<mapsto> Str (''Wikipedia ('' @ title @ '')''),
               ''title'' \<mapsto> Str title)"

text \<open>The loop over the candidate titles.\<close>

fun fetch_pages :: "wikipedia \<Rightarrow> trace \<Rightarrow> string list \<Rightarrow> pydict list
                    \<Rightarrow> (py_error + pydict list) \<times> trace" where
  "fetch_pages wiki tr [] chunks = (Inr chunks, tr)"
| "fetch_pages wiki tr (title # titles) chunks =
     (case page_exists wiki title of
        Inl err \<Rightarrow> (Inl err, tr @ [WikiExists title])
      | Inr False \<Rightarrow> fetch_pages wiki (tr @ [WikiExists title]) titles chunks
      | Inr True \<Rightarrow>
          (case page_text wiki title of
             Inl err \<Rightarrow> (Inl err, tr @ [WikiExists title, WikiText title])
           | Inr text \<Rightarrow>
               (let paragraphs = filter (\<lambda>p. py_len (strip p) > 50) (split_lines [] text)
                in fetch_pages wiki (tr @ [WikiExists title, WikiText title]) titles
                     (chunks @ map (wiki_chunk title) (take 3 paragraphs)))))"

definition search_wikipedia_chunks :: "wikipedia \<Rightarrow> trace \<Rightarrow> string \<Rightarrow> int
                                       \<Rightarrow> (py_error + pydict list) \<times> trace" where
  "search_wikipedia_chunks wiki tr query max_pages =
     (let candidates = extract_candidate_titles query max_pages
      in if candidates = [] then (Inr [], tr) else fetch_pages wiki tr candidates [])"

subsection \<open>Reranker (\<^verbatim>\<open>retriever.py\<close>, lines 140 to 169)\<close>

text \<open>The store of passage objects.\<close>

type_synonym ref = nat
type_synonym heap = "ref \<Rightarrow> pydict"

text \<open>\<^verbatim>\<open>q_emb * c_emb\<close> for two one-dimensional arrays: elementwise when the lengths agree, an
  array of length one is broadcast, anything else is a \<open>ValueError\<close>.\<close>

definition np_mul :: "numpy \<Rightarrow> real list \<Rightarrow> real list \<Rightarrow> py_error + real list" where
  "np_mul np a b =
     (if length a = length b then Inr (map2 (np_multiply np) a b)
      else if length a = 1 then Inr (map (\<lambda>y. np_multiply np (hd a) y) b)
      else if length b = 1 then Inr (map (\<lambda>x. np_multiply np x (hd b)) a)
      else Inl ValueError_shape)"

text \<open>The scoring loop: \<open>item["score"] = score\<close> updates the object in the store. The
  conversion \<open>float(...)\<close> of the sum keeps its value.\<close>

fun score_items :: "embedder \<Rightarrow> real list \<Rightarrow> heap \<Rightarrow> trace \<Rightarrow> ref list \<Rightarrow> ref list
                    \<Rightarrow> (py_error + ref list) \<times> heap \<times> trace" where
  "score_items e q_emb h tr [] scored_items = (Inr scored_items, h, tr)"
| "score_items e q_emb h tr (item # items) scored_items =
     (let c_text = dict_get (h item) ''text'' (Str '''')
      in case encode e tr c_text of
           (Inl err, tr1) \<Rightarrow> (Inl err, h, tr1)
         | (Inr arr, tr1) \<Rightarrow>
             (case index0 arr of
                Inl err \<Rightarrow> (Inl err, h, tr1)
              | Inr c_emb \<Rightarrow>
                  (case np_mul (arith e) q_emb c_emb of
                     Inl err \<Rightarrow> (Inl err, h, tr1)
                   | Inr products \<Rightarrow>
                       (let score = np_sum (arith e) products
                        in score_items e q_emb (h(item := (h item)(''score'' \<mapsto> Float score)))
                             tr1 items (scored_items @ [item])))))"

text \<open>The sort key \<open>x["score"]\<close>. After the loop every key is the float just assigned; a
  missing key or a key that is not a float is reported as an error.\<close>

definition score_key :: "heap \<Rightarrow> ref \<Rightarrow> py_error + real" where
  "score_key h x =
     (case h x ''score'' of
        None \<Rightarrow> Inl KeyError
      | Some (Float s) \<Rightarrow> Inr s
      | Some _ \<Rightarrow> Inl TypeError)"

definition score_of :: "heap \<Rightarrow> ref \<Rightarrow> real" where
  "score_of h x = (case score_key h x of Inr s \<Rightarrow> s | Inl err \<Rightarrow> 0)"

text \<open>\<^verbatim>\<open>scored_items.sort(key=lambda x: x["score"], reverse=True)\<close>. Python's sort is stable,
  also with \<open>reverse=True\<close>: it is the stable ascending sort on the negated key.\<close>

definition sort_by_score :: "heap \<Rightarrow> ref list \<Rightarrow> py_error + ref list" where
  "sort_by_score h items =
     (case List.find (\<lambda>x. isl (score_key h x)) items of
        Some x \<Rightarrow> Inl (projl (score_key h x))
      | None \<Rightarrow> Inr (sort_key (\<lambda>x. - score_of h x) items))"

definition rerank_results :: "embedder \<Rightarrow> heap \<Rightarrow> trace \<Rightarrow> string \<Rightarrow> ref list \<Rightarrow> int
                              \<Rightarrow> (py_error + ref list) \<times> heap \<times> trace" where
  "rerank_results e h tr query candidates top_k =
     (if candidates = [] then (Inr [], h, tr)
      else (case encode e tr (Str query) of
              (Inl err, tr1) \<Rightarrow> (Inl err, h, tr1)
            | (Inr arr, tr1) \<Rightarrow>
                (case index0 arr of
                   Inl err \<Rightarrow> (Inl err, h, tr1)
                 | Inr q_emb \<Rightarrow>
                     (case score_items e q_emb h tr1 candidates [] of
                        (Inl err, h1, tr2) \<Rightarrow> (Inl err, h1, tr2)
                      | (Inr scored_items, h1, tr2) \<Rightarrow>
                          (case sort_by_score h1 scored_items of
                             Inl err \<Rightarrow> (Inl err, h1, tr2)
                           | Inr sorted_items \<Rightarrow> (Inr (py_take top_k sorted_items), h1, tr2))))))"

subsection \<open>Context builder (\<^verbatim>\<open>retriever.py\<close>, lines 175 to 213)\<close>

text \<open>Steps 1 and 2: the pool. \<^verbatim>\<open>if vector_db:\<close> is false for \<open>None\<close> only.\<close>

definition pool_chunks :: "embedder \<Rightarrow> wikipedia \<Rightarrow> trace \<Rightarrow> string \<Rightarrow> faiss_index option \<Rightarrow> bool
                           \<Rightarrow> (py_error + pydict list) \<times> trace" where
  "pool_chunks e wiki tr query vector_db use_wiki =
     (case (case vector_db of
              None \<Rightarrow> (Inr [], tr)
            | Some ix \<Rightarrow> search_faiss_index e ix tr query 4 ''Paper_DB'') of
        (Inl err, tr1) \<Rightarrow> (Inl err, tr1)
      | (Inr guideline_chunks, tr1) \<Rightarrow>
          (if use_wiki
           then (case search_wikipedia_chunks wiki tr1 query 2 of
                   (Inl err, tr2) \<Rightarrow> (Inl err, tr2)
                 | (Inr wiki_chunks, tr2) \<Rightarrow> (Inr (guideline_chunks @ wiki_chunks), tr2))
           else (Inr guideline_chunks, tr1)))"

text \<open>The formatting of a value inside an f-string: a string is inserted as it is; the
  text that Python prints for a float or a list is the parameter \<open>repr\<close>.\<close>

definition format_val :: "(pyval \<Rightarrow> string) \<Rightarrow> pyval \<Rightarrow> string" where
  "format_val repr v = (case v of Str s \<Rightarrow> s | _ \<Rightarrow> repr v)"

text \<open>One round of the loop of step 4; \<open>.strip()\<close> exists on strings only.\<close>

definition format_chunk :: "(pyval \<Rightarrow> string) \<Rightarrow> pydict \<Rightarrow> py_error + string" where
  "format_chunk repr chunk =
     (let source = dict_get chunk ''source'' (Str ''Unknown'')
      in case dict_get chunk ''text'' (Str '''') of
           Str s \<Rightarrow> Inr (''['' @ format_val repr source @ '']'' @ [CHR 0x0A] @ strip s)
         | _ \<Rightarrow> Inl AttributeError)"

fun format_chunks :: "(pyval \<Rightarrow> string) \<Rightarrow> pydict list \<Rightarrow> py_error + string list" where
  "format_chunks repr [] = Inr []"
| "format_chunks repr (chunk # chunks) =
     (case format_chunk repr chunk of
        Inl err \<Rightarrow> Inl err
      | Inr f \<Rightarrow> (case format_chunks repr chunks of Inl err \<Rightarrow> Inl err | Inr fs \<Rightarrow> Inr (f # fs)))"

text \<open>\<open>sep.join(xs)\<close>\<close>

fun join_str :: "string \<Rightarrow> string list \<Rightarrow> string" where
  "join_str sep [] = []"
| "join_str sep [x] = x"
| "join_str sep (x # y # ys) = x @ sep @ join_str sep (y # ys)"

definition format_context :: "(pyval \<Rightarrow> string) \<Rightarrow> pydict list \<Rightarrow> py_error + string" where
  "format_context repr best_chunks =
     (case format_chunks repr best_chunks of
        Inl err \<Rightarrow> Inl err
      | Inr formatted_context \<Rightarrow>
          (if formatted_context = [] then Inr ''No relevant documents found.''
           else Inr (join_str [CHR 0x0A, CHR 0x0A] formatted_context)))"

text \<open>\<^verbatim>\<open>get_relevant_context\<close>. The pooled passages are fresh objects, referenced from
  \<open>all_chunks\<close> only: the store holds the \<open>i\<close>-th of them at reference \<open>i\<close>.\<close>

definition get_relevant_context :: "embedder \<Rightarrow> wikipedia \<Rightarrow> (pyval \<Rightarrow> string) \<Rightarrow> trace \<Rightarrow> string
                                    \<Rightarrow> faiss_index option \<Rightarrow> bool \<Rightarrow> (py_error + string) \<times> trace" where
  "get_relevant_context e wiki repr tr query vector_db use_wiki =
     (case pool_chunks e wiki tr query vector_db use_wiki of
        (Inl err, tr1) \<Rightarrow> (Inl err, tr1)
      | (Inr all_chunks, tr1) \<Rightarrow>
          (let h = (\<lambda>i. if i < length all_chunks then all_chunks ! i else Map.empty)
           in case rerank_results e h tr1 query [0 ..< length all_chunks] 6 of
                (Inl err, h1, tr2) \<Rightarrow> (Inl err, tr2)
              | (Inr best_chunks, h1, tr2) \<Rightarrow> (format_context repr (map h1 best_chunks), tr2)))"

subsection \<open>Notions used to state the properties\<close>

text \<open>The embedding that a caller reads with \<^verbatim>\<open>embedder.encode(texts)[0]\<close>, when there is one.
  The result of \<open>encode\<close> does not depend on the trace (lemma \<open>encode_result_indep\<close>).\<close>

definition embedding_of :: "embedder \<Rightarrow> pyval \<Rightarrow> real list option" where
  "embedding_of e texts = (case fst (encode e [] texts) of Inr (v # vs) \<Rightarrow> Some v | _ \<Rightarrow> None)"

text \<open>The score that the reranker gives a passage for the query embedding \<open>q_emb\<close>, when the
  passage's text has an embedding that can be multiplied with it.\<close>

definition cand_score :: "embedder \<Rightarrow> real list \<Rightarrow> pydict \<Rightarrow> real option" where
  "cand_score e q_emb item =
     (case embedding_of e (dict_get item ''text'' (Str '''')) of
        None \<Rightarrow> None
      | Some c_emb \<Rightarrow>
          (case np_mul (arith e) q_emb c_emb of
             Inl err \<Rightarrow> None
           | Inr products \<Rightarrow> Some (np_sum (arith e) products)))"

text \<open>The store after every passage of \<open>items\<close> has received its score.\<close>

definition scored :: "embedder \<Rightarrow> real list \<Rightarrow> heap \<Rightarrow> ref list \<Rightarrow> heap" where
  "scored e q_emb h items =
     (\<lambda>r. if r \<in> set items then (h r)(''score'' \<mapsto> Float (the (cand_score e q_emb (h r))))
          else h r)"

text \<open>The titles probed in a trace, in order.\<close>

definition probes :: "trace \<Rightarrow> string list" where
  "probes tr = concat (map (\<lambda>ev. case ev of WikiExists t \<Rightarrow> [t] | _ \<Rightarrow> []) tr)"

text \<open>The lookups of a title raise no exception.\<close>

definition no_lookup_error :: "wikipedia \<Rightarrow> string \<Rightarrow> bool" where
  "no_lookup_error wiki title =
     (case page_exists wiki title of
        Inl err \<Rightarrow> False
      | Inr False \<Rightarrow> True
      | Inr True \<Rightarrow> \<not> isl (page_text wiki title))"

subsection \<open>Concrete collaborators for the examples\<close>

text \<open>An embedding model that knows three texts, one that is unreachable, and one that
  answers with a single very small entry; all with the arithmetic without rounding.\<close>

definition ex_embedder :: embedder where
  "ex_embedder = \<lparr>embed_query = (\<lambda>t. if t = ''q'' then Inr [1, 0]
                                     else if t = ''a'' then Inr [0, 2]
                                     else if t = ''b'' then Inr [3, 0]
                                     else Inl (RemoteError ''unavailable'')),
                  arith = exact_numpy\<rparr>"

definition ex_embedder_down :: embedder where
  "ex_embedder_down = \<lparr>embed_query = (\<lambda>t. Inl (RemoteError ''connection refused'')),
                       arith = exact_numpy\<rparr>"


text \<open>A pool of two passages, with texts \<open>a\<close> (reference 0) and \<open>b\<close> (reference 1); the
  same pool with scores 42 and 7 from an earlier step; and a pool whose second passage has
  no text.\<close>

definition ex_pool :: heap where
  "ex_pool = (\<lambda>r. if r = 0 then Map.empty(''text'' \<mapsto> Str ''a'')
                   else if r = 1 then Map.empty(''text'' \<mapsto> Str ''b'')
                   else Map.empty)"

definition ex_pool_scored :: heap where
  "ex_pool_scored =
     (\<lambda>r. if r = 0 then Map.empty(''text'' \<mapsto> Str ''a'', ''score'' \<mapsto> Float 42)
          else if r = 1 then Map.empty(''text'' \<mapsto> Str ''b'', ''score'' \<mapsto> Float 7)
          else Map.empty)"

definition ex_pool_blank :: heap where
  "ex_pool_blank =
     (\<lambda>r. if r = 0 then Map.empty(''text'' \<mapsto> Str ''a'')
          else if r = 1 then Map.empty(''source'' \<mapsto> Str ''Paper_DB'')
          else Map.empty)"

text \<open>An index of dimension 2 over two metadata rows whose search returns the slots 0, the
  sentinel and 7; and an index whose only row has no text.\<close>

definition ex_index :: faiss_index where
  "ex_index = \<lparr>index_d = 2,
               index_search = (\<lambda>q k. Inr ([[9 / 10, 5 / 10, 1 / 10]], [[0, - 1, 7]])),
               metadata = [Map.empty(''text'' \<mapsto> Str ''a'', ''title'' \<mapsto> Str ''T0''),
                           Map.empty(''text'' \<mapsto> Str ''b'')]\<rparr>"

definition ex_index_no_text :: faiss_index where
  "ex_index_no_text = \<lparr>index_d = 2,
                       index_search = (\<lambda>q k. Inr ([[9 / 10]], [[0]])),
                       metadata = [Map.empty(''title'' \<mapsto> Str ''T0'')]\<rparr>"

text \<open>An encyclopedia with the single topic \<open>Mutation Analysis\<close>, and one whose lookup of
  \<open>Egfr Mutation\<close> fails.\<close>

definition ex_wiki :: wikipedia where
  "ex_wiki = \<lparr>page_exists = (\<lambda>t. Inr (t = ''Mutation Analysis'')),
              page_text = (\<lambda>t. Inr ''Mutation analysis is the study of changes in the DNA sequence of a gene.'')\<rparr>"

definition ex_wiki_down :: wikipedia where
  "ex_wiki_down =
     \<lparr>page_exists = (\<lambda>t. if t = ''Egfr Mutation'' then Inl (RemoteError ''timeout'') else Inr True),
      page_text = (\<lambda>t. Inr ''Mutation analysis is the study of changes in the DNA sequence of a gene.'')\<rparr>"

section \<open>Properties\<close>

lemmas evals =
  rerank_results_def encode_def text_list_def strip_def is_space_u_def is_space_c_def
  is_cont_byte_def np_array_def l2_normalize_def l2_norm_def exact_numpy_def index0_def
  np_mul_def dict_get_def sort_by_score_def score_key_def score_of_def py_take_def Let_def

subsection \<open>Candidate titles\<close>

text \<open>Claim C5. For the query \<open>EGFR mutation analysis\<close> and at most 5 candidates, the titles are
  the two bigrams in title case, then the acronym \<open>EGFR\<close> as it is, then the two other
  tokens: the list contains \<open>EGFR\<close> and the bigram \<open>Mutation Analysis\<close>, and none of its
  entries is a stop word.\<close>

theorem extract_candidate_titles_EGFR:
  "extract_candidate_titles ''EGFR mutation analysis'' 5
     = [''Egfr Mutation'', ''Mutation Analysis'', ''EGFR'', ''Mutation'', ''Analysis'']
   \<and> List.member (extract_candidate_titles ''EGFR mutation analysis'' 5) ''EGFR''
   \<and> List.member (extract_candidate_titles ''EGFR mutation analysis'' 5) ''Mutation Analysis''
   \<and> list_all (\<lambda>c. \<not> List.member STOPWORDS (lower_str c))
        (extract_candidate_titles ''EGFR mutation analysis'' 5)"
  by code_simp

lemma titles_EGFR_2:
  "extract_candidate_titles ''EGFR mutation analysis'' 2 = [''Egfr Mutation'', ''Mutation Analysis'']"
  by code_simp

lemma titles_EGFR_1: "extract_candidate_titles ''EGFR'' 2 = [''EGFR'']"
  by code_simp

subsection \<open>Embedding provider\<close>

lemma embed_all_result_indep: "fst (embed_all e tr ts) = fst (embed_all e tr' ts)"
proof (induction ts arbitrary: tr tr')
  case Nil
  show ?case by simp
next
  case (Cons t ts)
  show ?case
  proof (cases "embed_query e t")
    case (Inl err)
    then show ?thesis by simp
  next
    case (Inr v)
    have "fst (embed_all e (tr @ [EmbedCall t]) ts) = fst (embed_all e (tr' @ [EmbedCall t]) ts)"
      by (rule Cons.IH)
    then show ?thesis using Inr
      by (cases "embed_all e (tr @ [EmbedCall t]) ts"; cases "embed_all e (tr' @ [EmbedCall t]) ts")
         (auto split: sum.splits)
  qed
qed

lemma encode_result_indep: "fst (encode e tr texts) = fst (encode e tr' texts)"
proof (cases "text_list texts")
  case (Inl err)
  then show ?thesis by (simp add: encode_def)
next
  case (Inr ts)
  have "fst (embed_all e tr (filter (\<lambda>t. strip t \<noteq> []) ts))
      = fst (embed_all e tr' (filter (\<lambda>t. strip t \<noteq> []) ts))"
    by (rule embed_all_result_indep)
  then show ?thesis using Inr
    by (cases "embed_all e tr (filter (\<lambda>t. strip t \<noteq> []) ts)";
        cases "embed_all e tr' (filter (\<lambda>t. strip t \<noteq> []) ts)")
       (auto simp: encode_def Let_def split: sum.splits)
qed

text \<open>On a string, \<open>encode\<close> never raises: a failure of the model gives the empty array.\<close>

lemma encode_str_never_raises: "\<exists>arr tr'. encode e tr (Str s) = (Inr arr, tr')"
  by (cases "embed_all e tr [s]") (auto simp: encode_def text_list_def Let_def split: sum.splits)

lemma encode_model_failure:
  "strip s \<noteq> [] \<Longrightarrow> embed_query e s = Inl err \<Longrightarrow> encode e tr (Str s) = (Inr [], tr @ [EmbedCall s])"
  by (simp add: encode_def text_list_def)

lemma encode_blank: "strip s = [] \<Longrightarrow> encode e tr (Str s) = (Inr [], tr)"
  by (simp add: encode_def text_list_def)

text \<open>A text made of a no-break space (U+00A0) is blank for \<open>strip\<close>, so \<open>encode\<close> filters
  it and calls no model.\<close>

lemma strip_no_break_space: "strip [CHR 0xC2, CHR 0xA0] = []"
  by code_simp

lemma encode_no_break_space: "encode e tr (Str [CHR 0xC2, CHR 0xA0]) = (Inr [], tr)"
  by (rule encode_blank) (rule strip_no_break_space)

lemma encode_first_row:
  assumes "embedding_of e texts = Some v"
  shows "\<exists>vs tr'. encode e tr texts = (Inr (v # vs), tr')"
proof -
  from assms obtain vs where "fst (encode e [] texts) = Inr (v # vs)"
    by (auto simp: embedding_of_def split: sum.splits list.splits)
  then have "fst (encode e tr texts) = Inr (v # vs)"
    using encode_result_indep[of e tr texts "[]"] by simp
  then show ?thesis by (cases "encode e tr texts") auto
qed

text \<open>Claim C1. A failure of the embedding provider, or a text that is blank, makes \<open>encode\<close>
  return the empty array; the claim says that the callers then go on without an indexing
  error. Evaluated on an unreachable model, and on a metadata row without text, the search
  driver, the reranker and the context builder all end in \<open>IndexError\<close>, raised by the
  \<open>[0]\<close> that each caller applies to the result of \<open>encode\<close>.\<close>

theorem encode_failure_breaks_callers:
  "encode ex_embedder_down [] (Str ''EGFR'') = (Inr [], [EmbedCall ''EGFR''])
   \<and> search_faiss_index ex_embedder_down ex_index [] ''EGFR'' 4 ''Paper_DB''
       = (Inl IndexError, [EmbedCall ''EGFR''])
   \<and> fst (rerank_results ex_embedder_down ex_pool [] ''EGFR'' [0, 1] 6) = Inl IndexError
   \<and> fst (get_relevant_context ex_embedder_down ex_wiki (\<lambda>v. []) [] ''EGFR'' (Some ex_index) False)
       = Inl IndexError
   \<and> encode ex_embedder [] (Str '''') = (Inr [], [])
   \<and> fst (get_relevant_context ex_embedder ex_wiki (\<lambda>v. []) [] ''q'' (Some ex_index_no_text) False)
       = Inl IndexError"
  by (simp add: evals search_faiss_index_def get_relevant_context_def pool_chunks_def
                FaissIndex_search_def raw_hits_def py_index_def hit_dict_def
                ex_embedder_down_def ex_embedder_def ex_index_def ex_index_no_text_def ex_pool_def)

subsection \<open>Normalization\<close>


lemma l2_norm_nonneg: "0 \<le> l2_norm v"
proof -
  have "0 \<le> sum_list (map (\<lambda>x. x * x) v)"
    by (rule sum_list_nonneg) auto
  then show ?thesis by (simp add: l2_norm_def)
qed








subsection \<open>Vector index reader\<close>

lemma collect_hits_spec:
  "collect_hits meta tr hits acc = (r, tr') \<Longrightarrow>
   \<exists>reads. tr' = tr @ map MetaRead reads
     \<and> list_all (\<lambda>i. i \<noteq> - 1 \<and> i < int (length meta)) reads
     \<and> (\<forall>results. r = Inr results \<longrightarrow>
          reads = filter (\<lambda>i. i \<noteq> - 1 \<and> i < int (length meta)) (map snd hits)
        \<and> (\<exists>new. results = acc @ new
              \<and> list_all2 (\<lambda>res (s, i). \<exists>m. py_index meta i = Inr m \<and> res = hit_dict s m) new
                   (filter (\<lambda>(s, i). i \<noteq> - 1 \<and> i < int (length meta)) hits)))"
proof (induction hits arbitrary: tr acc)
  case Nil
  then show ?case by (intro exI[of _ "[]"]) auto
next
  case (Cons hit hits)
  obtain score idx where hit: "hit = (score, idx)" by (cases hit)
  show ?case
  proof (cases "idx = - 1 \<or> idx \<ge> int (length meta)")
    case True
    with Cons.prems hit have "collect_hits meta tr hits acc = (r, tr')" by simp
    from Cons.IH[OF this] obtain reads where
      "tr' = tr @ map MetaRead reads"
      "list_all (\<lambda>i. i \<noteq> - 1 \<and> i < int (length meta)) reads"
      "\<forall>results. r = Inr results \<longrightarrow>
          reads = filter (\<lambda>i. i \<noteq> - 1 \<and> i < int (length meta)) (map snd hits)
        \<and> (\<exists>new. results = acc @ new
              \<and> list_all2 (\<lambda>res (s, i). \<exists>m. py_index meta i = Inr m \<and> res = hit_dict s m) new
                   (filter (\<lambda>(s, i). i \<noteq> - 1 \<and> i < int (length meta)) hits))"
      by blast
    with True hit show ?thesis by (intro exI[of _ reads]) auto
  next
    case False
    show ?thesis
    proof (cases "py_index meta idx")
      case (Inl err)
      with Cons.prems hit False have "r = Inl err" "tr' = tr @ map MetaRead [idx]" by auto
      with False show ?thesis by (intro exI[of _ "[idx]"]) auto
    next
      case (Inr m)
      with Cons.prems hit False have
        "collect_hits meta (tr @ [MetaRead idx]) hits (acc @ [hit_dict score m]) = (r, tr')" by simp
      from Cons.IH[OF this] obtain reads where
        t: "tr' = (tr @ [MetaRead idx]) @ map MetaRead reads"
        and v: "list_all (\<lambda>i. i \<noteq> - 1 \<and> i < int (length meta)) reads"
        and res: "\<forall>results. r = Inr results \<longrightarrow>
            reads = filter (\<lambda>i. i \<noteq> - 1 \<and> i < int (length meta)) (map snd hits)
          \<and> (\<exists>new. results = (acc @ [hit_dict score m]) @ new
                \<and> list_all2 (\<lambda>res (s, i). \<exists>m. py_index meta i = Inr m \<and> res = hit_dict s m) new
                     (filter (\<lambda>(s, i). i \<noteq> - 1 \<and> i < int (length meta)) hits))"
        by blast
      show ?thesis
      proof (intro exI[of _ "idx # reads"] conjI allI impI)
        show "tr' = tr @ map MetaRead (idx # reads)" using t by simp
        show "list_all (\<lambda>i. i \<noteq> - 1 \<and> i < int (length meta)) (idx # reads)"
          using v False by simp
      next
        fix results assume "r = Inr results"
        with res have r1: "reads = filter (\<lambda>i. i \<noteq> - 1 \<and> i < int (length meta)) (map snd hits)"
          and "\<exists>new. results = (acc @ [hit_dict score m]) @ new
                \<and> list_all2 (\<lambda>res (s, i). \<exists>m. py_index meta i = Inr m \<and> res = hit_dict s m) new
                     (filter (\<lambda>(s, i). i \<noteq> - 1 \<and> i < int (length meta)) hits)"
          by blast+
        then obtain new where n: "results = (acc @ [hit_dict score m]) @ new"
          and l: "list_all2 (\<lambda>res (s, i). \<exists>m. py_index meta i = Inr m \<and> res = hit_dict s m) new
                     (filter (\<lambda>(s, i). i \<noteq> - 1 \<and> i < int (length meta)) hits)"
          by blast
        show "idx # reads = filter (\<lambda>i. i \<noteq> - 1 \<and> i < int (length meta)) (map snd (hit # hits))"
          using r1 False hit by simp
        show "\<exists>new. results = acc @ new
              \<and> list_all2 (\<lambda>res (s, i). \<exists>m. py_index meta i = Inr m \<and> res = hit_dict s m) new
                   (filter (\<lambda>(s, i). i \<noteq> - 1 \<and> i < int (length meta)) (hit # hits))"
          using n l False hit Inr by (intro exI[of _ "hit_dict score m # new"]) simp
      qed
    qed
  qed
qed

text \<open>Claim C2. For a query of the index's dimension, every slot that \<open>search\<close> reads in the
  metadata list is neither the sentinel \<open>-1\<close> nor at or beyond the length of the list, whatever
  the outcome of the call. When the call returns, the slots read are exactly the raw hits
  that pass this test, in order, and the results are built from them one for one: the
  excluded hits give no result, so there can be fewer results than raw hits.\<close>

theorem search_excludes_invalid_slots:
  assumes dim: "shape1 query_emb = index_d ix"
    and run: "FaissIndex_search ix tr query_emb top_k = (r, tr')"
  shows "\<exists>reads. tr' = tr @ IndexCall (rows_2d query_emb) top_k # map MetaRead reads
     \<and> list_all (\<lambda>i. i \<noteq> - 1 \<and> i < int (length (metadata ix))) reads
     \<and> (\<forall>results. r = Inr results \<longrightarrow>
          (\<exists>hits. raw_hits ix (rows_2d query_emb) top_k = Inr hits
             \<and> reads = filter (\<lambda>i. i \<noteq> - 1 \<and> i < int (length (metadata ix))) (map snd hits)
             \<and> list_all2 (\<lambda>res (s, i). \<exists>m. py_index (metadata ix) i = Inr m \<and> res = hit_dict s m)
                  results (filter (\<lambda>(s, i). i \<noteq> - 1 \<and> i < int (length (metadata ix))) hits)
             \<and> length results \<le> length hits))"
proof (cases "raw_hits ix (rows_2d query_emb) top_k")
  case (Inl err)
  with dim run have "r = Inl err" "tr' = tr @ [IndexCall (rows_2d query_emb) top_k]"
    by (auto simp: FaissIndex_search_def)
  then show ?thesis by (intro exI[of _ "[]"]) simp
next
  case (Inr hits)
  with dim run have
    "collect_hits (metadata ix) (tr @ [IndexCall (rows_2d query_emb) top_k]) hits [] = (r, tr')"
    by (simp add: FaissIndex_search_def)
  from collect_hits_spec[OF this] obtain reads where
    t: "tr' = (tr @ [IndexCall (rows_2d query_emb) top_k]) @ map MetaRead reads"
    and v: "list_all (\<lambda>i. i \<noteq> - 1 \<and> i < int (length (metadata ix))) reads"
    and res: "\<forall>results. r = Inr results \<longrightarrow>
          reads = filter (\<lambda>i. i \<noteq> - 1 \<and> i < int (length (metadata ix))) (map snd hits)
        \<and> (\<exists>new. results = [] @ new
              \<and> list_all2 (\<lambda>res (s, i). \<exists>m. py_index (metadata ix) i = Inr m \<and> res = hit_dict s m) new
                   (filter (\<lambda>(s, i). i \<noteq> - 1 \<and> i < int (length (metadata ix))) hits))"
    by blast
  show ?thesis
  proof (intro exI[of _ reads] conjI allI impI)
    show "tr' = tr @ IndexCall (rows_2d query_emb) top_k # map MetaRead reads" using t by simp
    show "list_all (\<lambda>i. i \<noteq> - 1 \<and> i < int (length (metadata ix))) reads" by (rule v)
  next
    fix results assume "r = Inr results"
    with res have r1: "reads = filter (\<lambda>i. i \<noteq> - 1 \<and> i < int (length (metadata ix))) (map snd hits)"
      and l: "list_all2 (\<lambda>res (s, i). \<exists>m. py_index (metadata ix) i = Inr m \<and> res = hit_dict s m) results
                   (filter (\<lambda>(s, i). i \<noteq> - 1 \<and> i < int (length (metadata ix))) hits)"
      by auto
    from l have "length results = length (filter (\<lambda>(s, i). i \<noteq> - 1 \<and> i < int (length (metadata ix))) hits)"
      by (rule list_all2_lengthD)
    then have "length results \<le> length hits" by simp
    with Inr r1 l show "\<exists>hits. raw_hits ix (rows_2d query_emb) top_k = Inr hits
             \<and> reads = filter (\<lambda>i. i \<noteq> - 1 \<and> i < int (length (metadata ix))) (map snd hits)
             \<and> list_all2 (\<lambda>res (s, i). \<exists>m. py_index (metadata ix) i = Inr m \<and> res = hit_dict s m)
                  results (filter (\<lambda>(s, i). i \<noteq> - 1 \<and> i < int (length (metadata ix))) hits)
             \<and> length results \<le> length hits" by blast
  qed
qed

lemma ex_index_run:
  "FaissIndex_search ex_index [] (Arr1 [1, 0]) 3 =
     (Inr [hit_dict (9 / 10) (Map.empty(''text'' \<mapsto> Str ''a'', ''title'' \<mapsto> Str ''T0''))],
      [IndexCall [[1, 0]] 3, MetaRead 0])"
  by (simp add: FaissIndex_search_def raw_hits_def ex_index_def index0_def py_index_def)

theorem search_excludes_invalid_slots_witness:
  "shape1 (Arr1 [1, 0]) = index_d ex_index
   \<and> FaissIndex_search ex_index [] (Arr1 [1, 0]) 3 =
     (Inr [hit_dict (9 / 10) (Map.empty(''text'' \<mapsto> Str ''a'', ''title'' \<mapsto> Str ''T0''))],
      [IndexCall [[1, 0]] 3, MetaRead 0])
   \<and> (\<exists>reads. [IndexCall [[1, 0]] 3, MetaRead 0] = [] @ IndexCall [[1, 0]] 3 # map MetaRead reads
        \<and> list_all (\<lambda>i. i \<noteq> - 1 \<and> i < int (length (metadata ex_index))) reads)"
proof -
  have d: "shape1 (Arr1 [1, 0]) = index_d ex_index" by (simp add: ex_index_def)
  from search_excludes_invalid_slots[OF d ex_index_run] obtain reads where
    "[IndexCall [[1, 0]] 3, MetaRead 0] = [] @ IndexCall (rows_2d (Arr1 [1, 0])) 3 # map MetaRead reads"
    "list_all (\<lambda>i. i \<noteq> - 1 \<and> i < int (length (metadata ex_index))) reads"
    by blast
  then have "\<exists>reads. [IndexCall [[1, 0]] 3, MetaRead 0] = [] @ IndexCall [[1, 0]] 3 # map MetaRead reads
        \<and> list_all (\<lambda>i. i \<noteq> - 1 \<and> i < int (length (metadata ex_index))) reads"
    by (intro exI[of _ reads]) simp
  with d ex_index_run show ?thesis by blast
qed

text \<open>Claim C3. When the query's dimension differs from the index's, \<open>search\<close> raises the
  dimension error, which carries both dimensions and is not a return of no results; the
  trace is unchanged, so the index has not been called.\<close>

theorem search_dimension_mismatch:
  assumes "shape1 query_emb \<noteq> index_d ix"
  shows "FaissIndex_search ix tr query_emb top_k
           = (Inl (ValueError_dimension (index_d ix) (shape1 query_emb)), tr)
       \<and> fst (FaissIndex_search ix tr query_emb top_k) \<noteq> Inr []"
  using assms by (simp add: FaissIndex_search_def)

theorem search_dimension_mismatch_witness:
  "shape1 (Arr1 [1, 0, 0]) \<noteq> index_d ex_index
   \<and> FaissIndex_search ex_index [] (Arr1 [1, 0, 0]) 3 = (Inl (ValueError_dimension 2 3), [])"
proof -
  have d: "shape1 (Arr1 [1, 0, 0]) \<noteq> index_d ex_index" by (simp add: ex_index_def)
  from search_dimension_mismatch[OF d, of "[]" 3] d show ?thesis by (simp add: ex_index_def)
qed

subsection \<open>Reranker\<close>

text \<open>Claim C8. On the empty pool the reranker returns the empty sequence at once: the store
  and the trace are unchanged, so the embedding provider has not been called, for the query
  or for anything else.\<close>

theorem rerank_empty_pool:
  "rerank_results e h tr query [] top_k = (Inr [], h, tr)"
  by (simp add: rerank_results_def)

lemma cand_score_score_upd [simp]:
  "cand_score e q_emb (d(''score'' \<mapsto> v)) = cand_score e q_emb d"
  by (simp add: cand_score_def dict_get_def)

lemma cand_score_step:
  assumes "cand_score e q_emb (h item) = Some s"
  shows "\<exists>tr1. score_items e q_emb h tr (item # items) acc =
            score_items e q_emb (h(item := (h item)(''score'' \<mapsto> Float s))) tr1 items (acc @ [item])"
proof -
  from assms obtain c_emb products where
    c: "embedding_of e (dict_get (h item) ''text'' (Str '''')) = Some c_emb"
    and p: "np_mul (arith e) q_emb c_emb = Inr products" and s: "s = np_sum (arith e) products"
    by (auto simp: cand_score_def split: option.splits sum.splits)
  from encode_first_row[OF c, of tr] obtain vs tr1 where
    "encode e tr (dict_get (h item) ''text'' (Str '''')) = (Inr (c_emb # vs), tr1)" by blast
  then show ?thesis using p s by (auto simp: index0_def Let_def)
qed

lemma score_items_ok:
  "\<forall>c \<in> set items. cand_score e q_emb (h c) \<noteq> None \<Longrightarrow>
   \<exists>tr'. score_items e q_emb h tr items acc = (Inr (acc @ items), scored e q_emb h items, tr')"
proof (induction items arbitrary: h tr acc)
  case Nil
  show ?case by (simp add: scored_def)
next
  case (Cons item items)
  then obtain s where s: "cand_score e q_emb (h item) = Some s" by auto
  let ?h1 = "h(item := (h item)(''score'' \<mapsto> Float s))"
  from cand_score_step[of e q_emb h item s tr items acc, OF s] obtain tr1 where
    step: "score_items e q_emb h tr (item # items) acc = score_items e q_emb ?h1 tr1 items (acc @ [item])"
    by blast
  have same: "cand_score e q_emb (?h1 c) = cand_score e q_emb (h c)" for c by simp
  have "\<forall>c \<in> set items. cand_score e q_emb (?h1 c) \<noteq> None"
    using Cons.prems by (simp add: same)
  from Cons.IH[OF this, of tr1 "acc @ [item]"] obtain tr' where
    ih: "score_items e q_emb ?h1 tr1 items (acc @ [item]) = (Inr ((acc @ [item]) @ items), scored e q_emb ?h1 items, tr')"
    by blast
  have "scored e q_emb ?h1 items = scored e q_emb h (item # items)"
    unfolding scored_def using s by (auto simp: fun_eq_iff same simp del: cand_score_score_upd fun_upd_apply) (auto)
  with step ih show ?case by simp
qed

lemma score_key_scored:
  "c \<in> set items \<Longrightarrow> score_key (scored e q_emb h items) c = Inr (the (cand_score e q_emb (h c)))"
  by (simp add: score_key_def scored_def)

lemma sort_by_score_ok:
  "\<forall>c \<in> set items. \<not> isl (score_key h c) \<Longrightarrow>
   sort_by_score h items = Inr (sort_key (\<lambda>x. - score_of h x) items)"
  by (auto simp: sort_by_score_def find_None_iff split: option.splits dest: find_Some_iff[THEN iffD1])

lemma rerank_ok:
  assumes ne: "candidates \<noteq> []"
    and q: "embedding_of e (Str query) = Some q_emb"
    and cs: "\<forall>c \<in> set candidates. cand_score e q_emb (h c) \<noteq> None"
  shows "\<exists>tr'. rerank_results e h tr query candidates top_k =
           (Inr (py_take top_k (sort_key (\<lambda>x. - score_of (scored e q_emb h candidates) x) candidates)),
            scored e q_emb h candidates, tr')"
proof -
  from encode_first_row[OF q, of tr] obtain vs tr1 where
    enc: "encode e tr (Str query) = (Inr (q_emb # vs), tr1)" by blast
  from score_items_ok[OF cs, of tr1 "[]"] obtain tr2 where
    loop: "score_items e q_emb h tr1 candidates [] = (Inr candidates, scored e q_emb h candidates, tr2)"
    by auto
  have "\<forall>c \<in> set candidates. \<not> isl (score_key (scored e q_emb h candidates) c)"
    by (simp add: score_key_scored)
  then have "sort_by_score (scored e q_emb h candidates) candidates =
      Inr (sort_key (\<lambda>x. - score_of (scored e q_emb h candidates) x) candidates)"
    by (rule sort_by_score_ok)
  with ne enc loop show ?thesis
    by (simp add: rerank_results_def index0_def)
qed

lemma score_items_raises:
  assumes "cand_score e q_emb (h item) = None"
  shows "\<exists>err tr1. score_items e q_emb h tr (item # items) acc = (Inl err, h, tr1)"
proof -
  obtain r tr1 where enc: "encode e tr (dict_get (h item) ''text'' (Str '''')) = (r, tr1)"
    by (cases "encode e tr (dict_get (h item) ''text'' (Str ''''))") auto
  have "fst (encode e [] (dict_get (h item) ''text'' (Str ''''))) = r"
    using encode_result_indep[of e "[]" _ tr] enc by simp
  with assms enc show ?thesis
    by (auto simp: cand_score_def embedding_of_def index0_def Let_def
             split: sum.splits list.splits option.splits)
qed

lemma score_items_effect:
  "score_items e q_emb h tr items acc = (r, h', tr') \<Longrightarrow>
     (\<forall>x key. key \<noteq> ''score'' \<longrightarrow> h' x key = h x key)
   \<and> (\<forall>x. x \<notin> set items \<longrightarrow> h' x = h x)
   \<and> (\<forall>x. (\<exists>s. h x ''score'' = Some (Float s)) \<longrightarrow> (\<exists>s. h' x ''score'' = Some (Float s)))
   \<and> (\<forall>res. r = Inr res \<longrightarrow> res = acc @ items \<and> (\<forall>c \<in> set items. \<exists>s. h' c ''score'' = Some (Float s)))"
proof (induction items arbitrary: h tr acc)
  case Nil
  then show ?case by auto
next
  case (Cons item items)
  show ?case
  proof (cases "\<exists>s. cand_score e q_emb (h item) = Some s")
    case True
    then obtain s where s: "cand_score e q_emb (h item) = Some s" by blast
    let ?h1 = "h(item := (h item)(''score'' \<mapsto> Float s))"
    from cand_score_step[of e q_emb h item s tr items acc, OF s] obtain tr1 where
      step: "score_items e q_emb h tr (item # items) acc = score_items e q_emb ?h1 tr1 items (acc @ [item])"
      by blast
    with Cons.prems have "score_items e q_emb ?h1 tr1 items (acc @ [item]) = (r, h', tr')" by simp
    from Cons.IH[OF this] have
      a: "\<forall>x key. key \<noteq> ''score'' \<longrightarrow> h' x key = ?h1 x key"
      and b: "\<forall>x. x \<notin> set items \<longrightarrow> h' x = ?h1 x"
      and c: "\<forall>x. (\<exists>s. ?h1 x ''score'' = Some (Float s)) \<longrightarrow> (\<exists>s. h' x ''score'' = Some (Float s))"
      and d: "\<forall>res. r = Inr res \<longrightarrow> res = (acc @ [item]) @ items \<and> (\<forall>c \<in> set items. \<exists>s. h' c ''score'' = Some (Float s))"
      by blast+
    have 1: "\<forall>x key. key \<noteq> ''score'' \<longrightarrow> h' x key = h x key" using a by simp
    have 2: "\<forall>x. x \<notin> set (item # items) \<longrightarrow> h' x = h x" using b by simp
    have 3: "\<forall>x. (\<exists>s. h x ''score'' = Some (Float s)) \<longrightarrow> (\<exists>s. h' x ''score'' = Some (Float s))"
    proof (intro allI impI)
      fix x assume "\<exists>s. h x ''score'' = Some (Float s)"
      then have "\<exists>s. ?h1 x ''score'' = Some (Float s)" by simp
      with c show "\<exists>s. h' x ''score'' = Some (Float s)" by blast
    qed
    have "\<exists>s. ?h1 item ''score'' = Some (Float s)" by simp
    with c have item: "\<exists>s. h' item ''score'' = Some (Float s)" by blast
    have 4: "\<forall>res. r = Inr res \<longrightarrow> res = acc @ item # items \<and> (\<forall>c \<in> set (item # items). \<exists>s. h' c ''score'' = Some (Float s))"
      using d item by simp
    from 1 2 3 4 show ?thesis by blast
  next
    case False
    then have none: "cand_score e q_emb (h item) = None" by simp
    from score_items_raises[of e q_emb h item tr items acc, OF none] Cons.prems show ?thesis by auto
  qed
qed

lemma sorted_desc_take:
  "sorted_wrt P xs \<Longrightarrow> sorted_wrt P (py_take k xs)"
  by (simp add: py_take_def sorted_wrt_take)

lemma score_items_Inr_scored:
  "score_items e q_emb h tr items acc = (Inr res, h', tr') \<Longrightarrow>
   \<forall>c \<in> set items. cand_score e q_emb (h c) \<noteq> None"
proof (induction items arbitrary: h tr acc)
  case Nil
  show ?case by simp
next
  case (Cons item items)
  show ?case
  proof (cases "cand_score e q_emb (h item)")
    case None
    from score_items_raises[of e q_emb h item tr items acc, OF None] Cons.prems
    show ?thesis by auto
  next
    case (Some s)
    let ?h1 = "h(item := (h item)(''score'' \<mapsto> Float s))"
    from cand_score_step[of e q_emb h item s tr items acc, OF Some] obtain tr1 where
      "score_items e q_emb h tr (item # items) acc = score_items e q_emb ?h1 tr1 items (acc @ [item])"
      by blast
    with Cons.prems have "score_items e q_emb ?h1 tr1 items (acc @ [item]) = (Inr res, h', tr')"
      by simp
    from Cons.IH[OF this] have "\<forall>c \<in> set items. cand_score e q_emb (?h1 c) \<noteq> None" .
    moreover have "cand_score e q_emb (?h1 c) = cand_score e q_emb (h c)" for c by simp
    ultimately show ?thesis using Some by simp
  qed
qed

text \<open>What the reranker does when every text has an embedding: for a non-empty pool, a
  query with an embedding and passages that all get a score, it returns the Python slice
  \<open>[:top_k]\<close> of \<open>ranked\<close>, the rearrangement of the pool that is sorted by score descending
  and keeps passages of equal score in their pool order; for \<open>top_k \<ge> 0\<close> these are exactly
  \<open>min N top_k\<close> passages.\<close>

lemma rerank_sorted_stable_when_scored:
  assumes ne: "candidates \<noteq> []"
    and q: "embedding_of e (Str query) = Some q_emb"
    and cs: "list_all (\<lambda>c. cand_score e q_emb (h c) \<noteq> None) candidates"
  shows "\<exists>res h' tr' ranked.
           rerank_results e h tr query candidates top_k = (Inr res, h', tr')
         \<and> mset ranked = mset candidates
         \<and> sorted_wrt (\<lambda>a b. score_of h' a \<ge> score_of h' b) ranked
         \<and> (\<forall>s. filter (\<lambda>x. score_of h' x = s) ranked = filter (\<lambda>x. score_of h' x = s) candidates)
         \<and> res = py_take top_k ranked
         \<and> sorted_wrt (\<lambda>a b. score_of h' a \<ge> score_of h' b) res
         \<and> (0 \<le> top_k \<longrightarrow> length res = min (length candidates) (nat top_k))
         \<and> (top_k < 0 \<longrightarrow> length res = length candidates - nat (- top_k))
         \<and> (\<forall>c \<in> set candidates. cand_score e q_emb (h c) = Some (score_of h' c))"
proof -
  define h' where "h' = scored e q_emb h candidates"
  define ranked where "ranked = sort_key (\<lambda>x. - score_of h' x) candidates"
  from cs have cs': "\<forall>c \<in> set candidates. cand_score e q_emb (h c) \<noteq> None"
    by (simp add: list_all_iff)
  from rerank_ok[OF ne q cs', of tr top_k] obtain tr' where
    run: "rerank_results e h tr query candidates top_k = (Inr (py_take top_k ranked), h', tr')"
    unfolding h'_def ranked_def by blast
  have perm: "mset ranked = mset candidates" by (simp add: ranked_def)
  have "sorted (map (\<lambda>x. - score_of h' x) ranked)" by (simp add: ranked_def)
  then have srt: "sorted_wrt (\<lambda>a b. score_of h' a \<ge> score_of h' b) ranked"
    by (simp add: sorted_map)
  have stable: "filter (\<lambda>x. score_of h' x = s) ranked = filter (\<lambda>x. score_of h' x = s) candidates" for s
    using sort_key_stable[of "\<lambda>x. - score_of h' x" "- s" candidates]
    by (simp add: ranked_def)
  have len: "length ranked = length candidates" by (simp add: ranked_def)
  have sc: "\<forall>c \<in> set candidates. cand_score e q_emb (h c) = Some (score_of h' c)"
    using cs' by (auto simp: score_of_def h'_def score_key_scored)
  show ?thesis
    using run perm srt stable sorted_desc_take[OF srt, of top_k] len sc
    by (intro exI[of _ "py_take top_k ranked"] exI[of _ h'] exI[of _ tr'] exI[of _ ranked])
       (simp add: py_take_def)
qed

text \<open>Claim C4. The claim asks, for every non-empty pool of \<open>N\<close> passages, for exactly
  \<open>min N topK\<close> passages in descending order of score. The reranker does this when every text
  has an embedding (lemma \<open>rerank_sorted_stable_when_scored\<close>; the pool with the texts \<open>a\<close>
  and \<open>b\<close> comes back as \<open>b\<close>, \<open>a\<close>). On the pool whose second passage has no text, with
  \<open>topK = 6\<close>, it returns no passage at all: \<open>encode\<close> gives the empty array for the blank
  text, the \<open>[0]\<close> of line 159 raises \<open>IndexError\<close>, and the first passage has already
  received its score.\<close>

theorem rerank_blank_text_raises:
  "rerank_results ex_embedder ex_pool_blank [] ''q'' [0, 1] 6
     = (Inl IndexError,
        ex_pool_blank(0 := (ex_pool_blank 0)(''score'' \<mapsto> Float 0)),
        [EmbedCall ''q'', EmbedCall ''a''])
   \<and> fst (rerank_results ex_embedder ex_pool [] ''q'' [0, 1] 6) = Inr [1, 0]"
  by (simp add: evals ex_embedder_def ex_pool_blank_def ex_pool_def fun_upd_def)

text \<open>Claim C10. When the reranker returns, it has assigned its score to every passage
  object of the caller's pool, in place: each object of the pool is, in the final store, the
  object it was with the key \<open>score\<close> set to the sum of the products of the query's embedding
  and the embedding of the passage's text, whatever score it carried before. This holds
  also for the passages that are not part of the returned list, which holds references into
  the pool only; objects outside the pool are unchanged.\<close>

theorem rerank_scores_whole_pool:
  assumes run: "rerank_results e h tr query candidates top_k = (Inr res, h', tr')"
  shows "(\<forall>c \<in> set candidates. \<exists>q_emb c_emb products.
             embedding_of e (Str query) = Some q_emb
           \<and> embedding_of e (dict_get (h c) ''text'' (Str '''')) = Some c_emb
           \<and> np_mul (arith e) q_emb c_emb = Inr products
           \<and> h' c = (h c)(''score'' \<mapsto> Float (np_sum (arith e) products)))
       \<and> (\<forall>x. x \<notin> set candidates \<longrightarrow> h' x = h x)
       \<and> set res \<subseteq> set candidates"
proof (cases "candidates = []")
  case True
  with run show ?thesis by (simp add: rerank_results_def)
next
  case False
  with run obtain arr q_emb tr1 scored_items sorted_items where
    enc: "encode e tr (Str query) = (Inr arr, tr1)"
    and q0: "index0 arr = Inr q_emb"
    and loop: "score_items e q_emb h tr1 candidates [] = (Inr scored_items, h', tr')"
    and srt: "sort_by_score h' scored_items = Inr sorted_items"
    and res: "res = py_take top_k sorted_items"
    by (auto simp: rerank_results_def split: prod.splits sum.splits)
  from q0 obtain vs where arr: "arr = q_emb # vs"
    by (cases arr) (auto simp: index0_def)
  have "fst (encode e [] (Str query)) = Inr (q_emb # vs)"
    using encode_result_indep[of e "[]" "Str query" tr] enc arr by simp
  then have q: "embedding_of e (Str query) = Some q_emb"
    by (simp add: embedding_of_def)
  from score_items_Inr_scored[OF loop] have
    all: "\<forall>c \<in> set candidates. cand_score e q_emb (h c) \<noteq> None" .
  from score_items_ok[OF all, of tr1 "[]"] loop have
    items: "scored_items = candidates" and h': "h' = scored e q_emb h candidates"
    by auto
  have 1: "\<exists>q_emb c_emb products.
             embedding_of e (Str query) = Some q_emb
           \<and> embedding_of e (dict_get (h c) ''text'' (Str '''')) = Some c_emb
           \<and> np_mul (arith e) q_emb c_emb = Inr products
           \<and> h' c = (h c)(''score'' \<mapsto> Float (np_sum (arith e) products))"
    if c: "c \<in> set candidates" for c
  proof -
    from all c obtain s where s: "cand_score e q_emb (h c) = Some s" by auto
    then obtain c_emb products where
      "embedding_of e (dict_get (h c) ''text'' (Str '''')) = Some c_emb"
      "np_mul (arith e) q_emb c_emb = Inr products" "s = np_sum (arith e) products"
      by (auto simp: cand_score_def split: option.splits sum.splits)
    moreover have "h' c = (h c)(''score'' \<mapsto> Float s)"
      using c s by (simp add: h' scored_def)
    ultimately show ?thesis using q by blast
  qed
  have 2: "\<forall>x. x \<notin> set candidates \<longrightarrow> h' x = h x"
    by (simp add: h' scored_def)
  from srt have "set sorted_items = set scored_items"
    by (auto simp: sort_by_score_def split: option.splits)
  then have 3: "set res \<subseteq> set candidates"
    using res items by (auto simp: py_take_def dest: in_set_takeD split: if_splits)
  from 1 2 3 show ?thesis by blast
qed

lemma ex_embeddings:
  "embedding_of ex_embedder (Str ''q'') = Some [1, 0]"
  "embedding_of ex_embedder (Str ''a'') = Some [0, 1]"
  "embedding_of ex_embedder (Str ''b'') = Some [1, 0]"
  by (simp_all add: embedding_of_def evals ex_embedder_def)

lemma ex_arith: "arith ex_embedder = exact_numpy"
  by (simp add: ex_embedder_def)

lemma ex_scored_run:
  "fst (rerank_results ex_embedder ex_pool_scored [] ''q'' [0, 1] 1) = Inr [1]"
  by (simp add: evals ex_embedder_def ex_pool_scored_def)

theorem rerank_scores_whole_pool_witness:
  "fst (rerank_results ex_embedder ex_pool_scored [] ''q'' [0, 1] 1) = Inr [1]
   \<and> ex_pool_scored 0 ''score'' = Some (Float 42)
   \<and> fst (snd (rerank_results ex_embedder ex_pool_scored [] ''q'' [0, 1] 1)) 0
        = (ex_pool_scored 0)(''score'' \<mapsto> Float 0)
   \<and> fst (snd (rerank_results ex_embedder ex_pool_scored [] ''q'' [0, 1] 1)) 1
        = (ex_pool_scored 1)(''score'' \<mapsto> Float 1)"
proof -
  let ?r = "rerank_results ex_embedder ex_pool_scored [] ''q'' [0, 1] 1"
  have "?r = (Inr [1], fst (snd ?r), snd (snd ?r))"
    using ex_scored_run by (metis prod.collapse)
  from rerank_scores_whole_pool[OF this] have
    "\<forall>c \<in> set [0, 1]. \<exists>q_emb c_emb products.
             embedding_of ex_embedder (Str ''q'') = Some q_emb
           \<and> embedding_of ex_embedder (dict_get (ex_pool_scored c) ''text'' (Str '''')) = Some c_emb
           \<and> np_mul (arith ex_embedder) q_emb c_emb = Inr products
           \<and> fst (snd ?r) c = (ex_pool_scored c)(''score'' \<mapsto> Float (np_sum (arith ex_embedder) products))"
    by blast
  then have "fst (snd ?r) 0 = (ex_pool_scored 0)(''score'' \<mapsto> Float 0)"
    and "fst (snd ?r) 1 = (ex_pool_scored 1)(''score'' \<mapsto> Float 1)"
    by (auto simp: ex_embeddings ex_pool_scored_def dict_get_def np_mul_def
                   ex_arith exact_numpy_def)
  with ex_scored_run show ?thesis by (simp add: ex_pool_scored_def)
qed

subsection \<open>Encyclopedia lookup\<close>

lemma probes_append [simp]: "probes (a @ b) = probes a @ probes b"
  by (simp add: probes_def)

lemma probes_simps [simp]:
  "probes [] = []"
  "probes (WikiExists t # tr) = t # probes tr"
  "probes (WikiText t # tr) = probes tr"
  by (simp_all add: probes_def)

lemma fetch_pages_no_error:
  "list_all (no_lookup_error wiki) titles \<Longrightarrow>
   \<exists>new tr'. fetch_pages wiki tr titles chunks = (Inr (chunks @ new), tr')
      \<and> probes tr' = probes tr @ titles
      \<and> list_all (\<lambda>c. \<exists>t. page_exists wiki t = Inr True \<and> c ''title'' = Some (Str t)) new"
proof (induction titles arbitrary: tr chunks)
  case Nil
  show ?case by simp
next
  case (Cons title titles)
  then have ok: "no_lookup_error wiki title" and rest: "list_all (no_lookup_error wiki) titles"
    by simp_all
  show ?case
  proof (cases "page_exists wiki title = Inr False")
    case True
    from Cons.IH[OF rest, of "tr @ [WikiExists title]" chunks] True
    show ?thesis by auto
  next
    case False
    with ok obtain body where ex: "page_exists wiki title = Inr True"
      and tx: "page_text wiki title = Inr body"
      by (cases "page_text wiki title") (auto simp: no_lookup_error_def split: sum.splits bool.splits)
    define ps where "ps = map (wiki_chunk title) (take 3 (filter (\<lambda>p. py_len (strip p) > 50) (split_lines [] body)))"
    from Cons.IH[OF rest, of "tr @ [WikiExists title, WikiText title]" "chunks @ ps"]
    obtain new tr' where
      run: "fetch_pages wiki (tr @ [WikiExists title, WikiText title]) titles (chunks @ ps) = (Inr ((chunks @ ps) @ new), tr')"
      and pr: "probes tr' = probes (tr @ [WikiExists title, WikiText title]) @ titles"
      and ti: "list_all (\<lambda>c. \<exists>t. page_exists wiki t = Inr True \<and> c ''title'' = Some (Str t)) new"
      by blast
    have "list_all (\<lambda>c. \<exists>t. page_exists wiki t = Inr True \<and> c ''title'' = Some (Str t)) ps"
      using ex by (auto simp: ps_def list_all_iff wiki_chunk_def)
    with ti have "list_all (\<lambda>c. \<exists>t. page_exists wiki t = Inr True \<and> c ''title'' = Some (Str t)) (ps @ new)"
      by simp
    moreover have "fetch_pages wiki tr (title # titles) chunks = (Inr (chunks @ ps @ new), tr')"
      using run ex tx by (simp add: ps_def Let_def)
    moreover have "probes tr' = probes tr @ title # titles" using pr by simp
    ultimately show ?thesis by blast
  qed
qed

text \<open>What the fetch does when no lookup raises: every candidate title is probed, in the
  order of the candidates; a title whose topic does not exist is skipped; each passage
  carries the title of a topic that exists.\<close>

lemma wikipedia_skips_missing_topics:
  assumes "list_all (no_lookup_error wiki) (extract_candidate_titles query max_pages)"
  shows "\<exists>chunks tr'. search_wikipedia_chunks wiki tr query max_pages = (Inr chunks, tr')
      \<and> probes tr' = probes tr @ extract_candidate_titles query max_pages
      \<and> list_all (\<lambda>c. \<exists>t. page_exists wiki t = Inr True \<and> c ''title'' = Some (Str t)) chunks"
proof (cases "extract_candidate_titles query max_pages = []")
  case True
  then show ?thesis by (simp add: search_wikipedia_chunks_def)
next
  case False
  from fetch_pages_no_error[OF assms, of tr "[]"] False
  show ?thesis by (simp add: search_wikipedia_chunks_def)
qed

text \<open>Claim C6. The claim asks that a failure of the lookup of one title be skipped and the
  fetch go on with the next title. The candidates of the query \<open>EGFR mutation analysis\<close> are
  \<open>Egfr Mutation\<close> and \<open>Mutation Analysis\<close>. When the lookup of the first one raises, the
  fetch ends with that exception after this single probe: the second title, whose topic
  exists, is never probed, and the context builder ends with the same exception. With an
  encyclopedia that answers, the same query probes both titles.\<close>

theorem wikipedia_lookup_error_aborts_fetch:
  "extract_candidate_titles ''EGFR mutation analysis'' 2 = [''Egfr Mutation'', ''Mutation Analysis'']
   \<and> page_exists ex_wiki_down ''Egfr Mutation'' = Inl (RemoteError ''timeout'')
   \<and> search_wikipedia_chunks ex_wiki_down [] ''EGFR mutation analysis'' 2
       = (Inl (RemoteError ''timeout''), [WikiExists ''Egfr Mutation''])
   \<and> get_relevant_context ex_embedder ex_wiki_down (\<lambda>v. []) [] ''EGFR mutation analysis'' None True
       = (Inl (RemoteError ''timeout''), [WikiExists ''Egfr Mutation''])
   \<and> probes (snd (search_wikipedia_chunks ex_wiki [] ''EGFR mutation analysis'' 2))
       = [''Egfr Mutation'', ''Mutation Analysis'']"
proof -
  have "list_all (no_lookup_error ex_wiki) (extract_candidate_titles ''EGFR mutation analysis'' 2)"
    by (simp add: titles_EGFR_2 no_lookup_error_def ex_wiki_def)
  from wikipedia_skips_missing_topics[OF this, of "[]"]
  have "probes (snd (search_wikipedia_chunks ex_wiki [] ''EGFR mutation analysis'' 2))
       = [''Egfr Mutation'', ''Mutation Analysis'']"
    by (auto simp: titles_EGFR_2)
  then show ?thesis
    by (simp add: titles_EGFR_2 search_wikipedia_chunks_def ex_wiki_down_def
                  get_relevant_context_def pool_chunks_def)
qed

subsection \<open>Context builder\<close>

lemma format_chunk_nonempty: "format_chunk repr chunk = Inr s \<Longrightarrow> s \<noteq> []"
  by (auto simp: format_chunk_def Let_def split: pyval.splits)

lemma format_chunks_nonempty: "format_chunks repr chunks = Inr fs \<Longrightarrow> list_all (\<lambda>f. f \<noteq> []) fs"
proof (induction chunks arbitrary: fs)
  case Nil
  then show ?case by simp
next
  case (Cons chunk chunks)
  then show ?case
    by (auto split: sum.splits dest: format_chunk_nonempty)
qed

lemma join_str_nonempty: "fs \<noteq> [] \<Longrightarrow> list_all (\<lambda>f. f \<noteq> []) fs \<Longrightarrow> join_str sep fs \<noteq> []"
  by (cases "(sep, fs)" rule: join_str.cases) auto

lemma format_context_nonempty:
  assumes "format_context repr chunks = Inr s"
  shows "s \<noteq> []"
proof (cases "format_chunks repr chunks")
  case (Inl err)
  with assms show ?thesis by (simp add: format_context_def)
next
  case (Inr fs)
  show ?thesis
  proof (cases "fs = []")
    case True
    with assms Inr show ?thesis by (auto simp: format_context_def)
  next
    case False
    from format_chunks_nonempty[OF Inr] False
    have "join_str [CHR 0x0A, CHR 0x0A] fs \<noteq> []" by (simp add: join_str_nonempty)
    with assms Inr False show ?thesis by (auto simp: format_context_def)
  qed
qed

text \<open>Claim C7. Without an index and without the encyclopedia the context builder returns
  the sentinel \<open>No relevant documents found.\<close> and calls no service. More generally it
  returns the sentinel whenever the pool is empty, the formatting step returns it for the
  empty list of passages, and no string that the context builder returns is empty.\<close>

theorem context_sentinel_when_empty:
  "get_relevant_context e wiki repr tr query None False = (Inr ''No relevant documents found.'', tr)
   \<and> (pool_chunks e wiki tr query vector_db use_wiki = (Inr [], tr1) \<longrightarrow>
        get_relevant_context e wiki repr tr query vector_db use_wiki
          = (Inr ''No relevant documents found.'', tr1))
   \<and> format_context repr [] = Inr ''No relevant documents found.''
   \<and> (get_relevant_context e wiki repr tr query vector_db use_wiki = (Inr s, tr2) \<longrightarrow> s \<noteq> [])"
proof (intro conjI impI)
  show "get_relevant_context e wiki repr tr query None False = (Inr ''No relevant documents found.'', tr)"
    by (simp add: get_relevant_context_def pool_chunks_def rerank_results_def format_context_def)
  show "format_context repr [] = Inr ''No relevant documents found.''"
    by (simp add: format_context_def)
next
  assume "pool_chunks e wiki tr query vector_db use_wiki = (Inr [], tr1)"
  then show "get_relevant_context e wiki repr tr query vector_db use_wiki
          = (Inr ''No relevant documents found.'', tr1)"
    by (simp add: get_relevant_context_def rerank_results_def format_context_def)
next
  assume "get_relevant_context e wiki repr tr query vector_db use_wiki = (Inr s, tr2)"
  then show "s \<noteq> []"
    by (auto simp: get_relevant_context_def Let_def split: prod.splits sum.splits
             dest: format_context_nonempty)
qed

theorem context_sentinel_when_empty_witness:
  "pool_chunks ex_embedder ex_wiki [] ''EGFR'' None True = (Inr [], [WikiExists ''EGFR''])
   \<and> get_relevant_context ex_embedder ex_wiki (\<lambda>v. []) [] ''EGFR'' None True
        = (Inr ''No relevant documents found.'', [WikiExists ''EGFR''])
   \<and> ''No relevant documents found.'' \<noteq> []"
proof -
  have p: "pool_chunks ex_embedder ex_wiki [] ''EGFR'' None True = (Inr [], [WikiExists ''EGFR''])"
    by (simp add: pool_chunks_def search_wikipedia_chunks_def titles_EGFR_1 ex_wiki_def)
  from context_sentinel_when_empty[of ex_embedder ex_wiki "\<lambda>v. []" "[]" "''EGFR''" None True "[WikiExists ''EGFR'']"] p
  show ?thesis by simp
qed

end
